theory Spec2Isabelle
  imports Complex_Main
begin

section \<open>Strings and numbers of the host language\<close>

text \<open>
  The sources are TypeScript. A string is modelled as a \<^typ>\<open>string\<close>, one \<^typ>\<open>char\<close> per
  code unit below 256. A number is a double: \<open>NaN\<close>, or a real that every operation rounds
  to 53 significant bits, to the nearest such number and to the even one on a tie. The two
  infinities (so also overflow past the largest double) and negative zero are outside the
  model.
\<close>

subsection \<open>Rounding to a double\<close>

text \<open>
  \<open>expo x\<close> is the binary exponent of \<open>x\<close>, between -1022 and 1023; below the smallest
  normal number it stays at -1022, which gives the fixed spacing of the subnormal numbers.
\<close>

fun expoUp :: "nat \<Rightarrow> real \<Rightarrow> int" where
  "expoUp 0 ax = 0"
| "expoUp (Suc k) ax = (if ax < 2 then 0 else expoUp k (ax / 2) + 1)"

fun expoDown :: "nat \<Rightarrow> real \<Rightarrow> int" where
  "expoDown 0 ax = 0"
| "expoDown (Suc k) ax = (if 1 \<le> ax then 0 else expoDown k (ax * 2) - 1)"

definition expo :: "real \<Rightarrow> int" where
  "expo x = (if 1 \<le> \<bar>x\<bar> then expoUp 1023 \<bar>x\<bar> else expoDown 1022 \<bar>x\<bar>)"

definition roundHalfEven :: "real \<Rightarrow> int" where
  "roundHalfEven y =
     (let f = floor y; r = y - of_int f
      in if r < 1 / 2 then f else if 1 / 2 < r then f + 1 else if even f then f else f + 1)"

text \<open>\<open>fl x\<close> is the double nearest to \<open>x\<close>: a multiple of the spacing \<open>2 powi (expo x - 52)\<close>.\<close>

definition fl :: "real \<Rightarrow> real" where
  "fl x = (if x = 0 then 0
           else (let q = 2 powi (expo x - 52) in q * of_int (roundHalfEven (x / q))))"

subsection \<open>Arithmetic\<close>

datatype jsnum = NaN | Num real

fun jadd :: "jsnum \<Rightarrow> jsnum \<Rightarrow> jsnum" where
  "jadd (Num a) (Num b) = Num (fl (a + b))"
| "jadd _ _ = NaN"

fun jsub :: "jsnum \<Rightarrow> jsnum \<Rightarrow> jsnum" where
  "jsub (Num a) (Num b) = Num (fl (a - b))"
| "jsub _ _ = NaN"

fun jmul :: "jsnum \<Rightarrow> jsnum \<Rightarrow> jsnum" where
  "jmul (Num a) (Num b) = Num (fl (a * b))"
| "jmul _ _ = NaN"

text \<open>Division is only ever by the non-zero constants 60, 1000 and 3600.\<close>

fun jdiv :: "jsnum \<Rightarrow> jsnum \<Rightarrow> jsnum" where
  "jdiv (Num a) (Num b) = (if b = 0 then NaN else Num (fl (a / b)))"
| "jdiv _ _ = NaN"

definition trunc :: "real \<Rightarrow> int" where
  "trunc x = (if x < 0 then ceiling x else floor x)"

text \<open>
  The remainder operator \<open>%\<close>: the result takes the sign of the dividend. The remainder
  of two doubles is a double, so nothing is rounded.
\<close>

fun jrem :: "jsnum \<Rightarrow> jsnum \<Rightarrow> jsnum" where
  "jrem (Num a) (Num b) = (if b = 0 then NaN else Num (a - b * of_int (trunc (a / b))))"
| "jrem _ _ = NaN"

text \<open>Comparisons with \<open>NaN\<close> are false.\<close>

fun jlt :: "jsnum \<Rightarrow> jsnum \<Rightarrow> bool" where
  "jlt (Num a) (Num b) = (a < b)"
| "jlt _ _ = False"

fun jge :: "jsnum \<Rightarrow> jsnum \<Rightarrow> bool" where
  "jge (Num a) (Num b) = (a \<ge> b)"
| "jge _ _ = False"

text \<open>\<open>Math.floor\<close> yields an integer or \<open>NaN\<close>; the latter is \<open>None\<close>.\<close>

fun Math_floor :: "jsnum \<Rightarrow> int option" where
  "Math_floor (Num a) = Some (floor a)"
| "Math_floor NaN = None"

definition isWhiteSpace :: "char \<Rightarrow> bool" where
  "isWhiteSpace c = (c \<in> set [CHR 0x09, CHR 0x0A, CHR 0x0B, CHR 0x0C, CHR 0x0D, CHR 0x20, CHR 0xA0])"

definition isDigit :: "char \<Rightarrow> bool" where
  "isDigit c = (c \<in> set ''0123456789'')"

definition digitVal :: "char \<Rightarrow> nat" where
  "digitVal c = of_char c - 48"

definition digitChar :: "nat \<Rightarrow> char" where
  "digitChar d = ''0123456789'' ! d"

definition trim :: "string \<Rightarrow> string" where
  "trim s = rev (dropWhile isWhiteSpace (rev (dropWhile isWhiteSpace s)))"

definition startsWith :: "string \<Rightarrow> string \<Rightarrow> bool" where
  "startsWith s p = (take (length p) s = p)"

fun includesStr :: "string \<Rightarrow> string \<Rightarrow> bool" where
  "includesStr [] p = (p = [])"
| "includesStr (c # cs) p = (startsWith (c # cs) p \<or> includesStr cs p)"

text \<open>\<open>s.split(sep)\<close> for a separator of one character: never an empty list.\<close>

fun splitFrom :: "char \<Rightarrow> string \<Rightarrow> string \<Rightarrow> string list" where
  "splitFrom sep cur [] = [cur]"
| "splitFrom sep cur (c # cs) =
     (if c = sep then cur # splitFrom sep [] cs else splitFrom sep (cur @ [c]) cs)"

definition splitOn :: "char \<Rightarrow> string \<Rightarrow> string list" where
  "splitOn sep s = splitFrom sep [] s"

text \<open>\<open>s.replace(/p/g, r)\<close> for a literal, non-empty pattern \<open>p\<close>: left to right, no overlaps.\<close>

fun replaceAll :: "string \<Rightarrow> string \<Rightarrow> string \<Rightarrow> string" where
  "replaceAll p r [] = []"
| "replaceAll p r (c # cs) =
     (if p \<noteq> [] \<and> startsWith (c # cs) p then r @ replaceAll p r (drop (length p - 1) cs)
      else c # replaceAll p r cs)"

text \<open>\<open>a.join(sep)\<close> on strings.\<close>

fun joinWith :: "string \<Rightarrow> string list \<Rightarrow> string" where
  "joinWith sep [] = []"
| "joinWith sep [x] = x"
| "joinWith sep (x # y # ys) = x @ sep @ joinWith sep (y # ys)"

subsection \<open>Numbers to strings and back\<close>

function digitsOf :: "nat \<Rightarrow> string" where
  "digitsOf n = (if n < 10 then [digitChar n] else digitsOf (n div 10) @ [digitChar (n mod 10)])"
  by pat_completeness auto
termination
  by (relation "measure id") auto

declare digitsOf.simps [simp del]

definition natOfDigits :: "string \<Rightarrow> nat" where
  "natOfDigits ds = foldl (\<lambda>acc c. 10 * acc + digitVal c) 0 ds"

text \<open>
  \<open>toString\<close> on the result of \<open>Math.floor\<close>. The exponent notation that the host uses from
  \<open>10^21\<close> on is not modelled.
\<close>

fun toString :: "int option \<Rightarrow> string" where
  "toString None = ''NaN''"
| "toString (Some i) = (if i < 0 then CHR ''-'' # digitsOf (nat (- i)) else digitsOf (nat i))"

definition padStart :: "nat \<Rightarrow> char \<Rightarrow> string \<Rightarrow> string" where
  "padStart n c s = replicate (n - length s) c @ s"

text \<open>
  The decimal literals that \<open>Number\<close> and \<open>parseFloat\<close> read: digits, an optional fraction,
  an optional exponent. \<open>decimalValue ip fp e\<close> is the value of integer part \<open>ip\<close>, fraction
  \<open>fp\<close> and exponent \<open>e\<close>.
\<close>

definition decimalValue :: "string \<Rightarrow> string \<Rightarrow> int \<Rightarrow> real" where
  "decimalValue ip fp e =
     (real (natOfDigits ip) + real (natOfDigits fp) / 10 ^ length fp)
       * (if e < 0 then 1 / 10 ^ nat (- e) else 10 ^ nat e)"

definition exponentPart :: "string \<Rightarrow> int \<times> string" where
  "exponentPart s =
     (case s of
        [] \<Rightarrow> (0, s)
      | c # r \<Rightarrow>
          if c = CHR ''e'' \<or> c = CHR ''E'' then
            (let sg = (if startsWith r ''-'' then - 1 else 1);
                 r' = (if startsWith r ''-'' \<or> startsWith r ''+'' then tl r else r);
                 ds = takeWhile isDigit r'
             in if ds = [] then (0, s) else (sg * int (natOfDigits ds), dropWhile isDigit r'))
          else (0, s))"

definition unsignedDecimal :: "string \<Rightarrow> (real \<times> string) option" where
  "unsignedDecimal s =
     (let ip = takeWhile isDigit s; r1 = dropWhile isDigit s
      in if startsWith r1 ''.'' then
           (let fp = takeWhile isDigit (tl r1); r3 = dropWhile isDigit (tl r1)
            in if ip = [] \<and> fp = [] then None
               else Some (decimalValue ip fp (fst (exponentPart r3)), snd (exponentPart r3)))
         else if ip = [] then None
         else Some (decimalValue ip [] (fst (exponentPart r1)), snd (exponentPart r1)))"

text \<open>The literal \<open>Infinity\<close> has no value in this model and is read as not a number.\<close>

definition signedDecimal :: "string \<Rightarrow> (real \<times> string) option" where
  "signedDecimal s =
     (if startsWith s ''-'' then map_option (\<lambda>(v, r). (- v, r)) (unsignedDecimal (tl s))
      else if startsWith s ''+'' then unsignedDecimal (tl s)
      else unsignedDecimal s)"

definition parseFloat :: "string \<Rightarrow> jsnum" where
  "parseFloat s =
     (case signedDecimal (dropWhile isWhiteSpace s) of
        None \<Rightarrow> NaN
      | Some (v, _) \<Rightarrow> Num (fl v))"

definition radixDigitVal :: "char \<Rightarrow> nat option" where
  "radixDigitVal c =
     (if isDigit c then Some (digitVal c)
      else if c \<in> set ''abcdef'' then Some (of_char c - 87)
      else if c \<in> set ''ABCDEF'' then Some (of_char c - 55)
      else None)"

definition radixValue :: "nat \<Rightarrow> string \<Rightarrow> nat option" where
  "radixValue b ds =
     (if ds \<noteq> [] \<and> list_all (\<lambda>c. case radixDigitVal c of None \<Rightarrow> False | Some d \<Rightarrow> d < b) ds
      then Some (foldl (\<lambda>acc c. b * acc + the (radixDigitVal c)) 0 ds)
      else None)"

definition radixOf :: "string \<Rightarrow> nat option" where
  "radixOf t =
     (if startsWith t ''0x'' \<or> startsWith t ''0X'' then Some 16
      else if startsWith t ''0o'' \<or> startsWith t ''0O'' then Some 8
      else if startsWith t ''0b'' \<or> startsWith t ''0B'' then Some 2
      else None)"

text \<open>
  \<open>Number(s)\<close> on a string: the whole trimmed string has to be a numeric literal; its value
  is rounded to a double.
\<close>

definition Number :: "string \<Rightarrow> jsnum" where
  "Number s =
     (let t = trim s
      in if t = [] then Num 0
         else (case radixOf t of
                 Some b \<Rightarrow> (case radixValue b (drop 2 t) of None \<Rightarrow> NaN | Some n \<Rightarrow> Num (fl (real n)))
               | None \<Rightarrow>
                   (case signedDecimal t of
                      None \<Rightarrow> NaN
                    | Some (v, r) \<Rightarrow> if r = [] then Num (fl v) else NaN)))"

text \<open>
  \<open>parseInt(s)\<close> without a radix: leading white space, a sign, then hexadecimal digits after
  \<open>0x\<close> and decimal digits otherwise; the longest such prefix counts.
\<close>

definition parseInt :: "string \<Rightarrow> jsnum" where
  "parseInt s =
     (let t = dropWhile isWhiteSpace s;
          neg = startsWith t ''-'';
          u = (if startsWith t ''-'' \<or> startsWith t ''+'' then tl t else t);
          hex = (startsWith u ''0x'' \<or> startsWith u ''0X'');
          ds = (if hex then takeWhile (\<lambda>c. radixDigitVal c \<noteq> None) (drop 2 u)
                else takeWhile isDigit u)
      in if ds = [] then NaN
         else (let n = (if hex then foldl (\<lambda>acc c. 16 * acc + the (radixDigitVal c)) 0 ds
                        else natOfDigits ds)
               in Num (fl (if neg then - real n else real n))))"

section \<open>Timestamp codec (src/lib/transcript.ts)\<close>

definition formatTimestamp :: "jsnum \<Rightarrow> string" where
  "formatTimestamp seconds =
     (let h = Math_floor (jdiv seconds (Num 3600));
          m = Math_floor (jdiv (jrem seconds (Num 3600)) (Num 60));
          s = Math_floor (jrem seconds (Num 60))
      in if (case h of None \<Rightarrow> False | Some i \<Rightarrow> i > 0) then
           toString h @ '':'' @ padStart 2 (CHR ''0'') (toString m) @ '':''
             @ padStart 2 (CHR ''0'') (toString s)
         else toString m @ '':'' @ padStart 2 (CHR ''0'') (toString s))"

text \<open>Reading an index past the end of an array gives \<open>undefined\<close>, which is \<open>NaN\<close> in arithmetic.\<close>

definition elemAt :: "jsnum list \<Rightarrow> nat \<Rightarrow> jsnum" where
  "elemAt xs i = (if i < length xs then xs ! i else NaN)"

definition parseTimestamp :: "string \<Rightarrow> jsnum" where
  "parseTimestamp timestamp =
     (let parts = map Number (splitOn (CHR '':'') timestamp)
      in if length parts = 3 then
           jadd (jadd (jmul (elemAt parts 0) (Num 3600)) (jmul (elemAt parts 1) (Num 60))) (elemAt parts 2)
         else jadd (jmul (elemAt parts 0) (Num 60)) (elemAt parts 1))"

section \<open>Entity decoder (src/lib/transcript.ts)\<close>

definition decodeHtmlEntities :: "string \<Rightarrow> string" where
  "decodeHtmlEntities text =
     replaceAll ''&nbsp;'' '' ''
      (replaceAll ''&#x2F;'' ''/''
       (replaceAll ''&#x27;'' [CHR 0x27]
        (replaceAll ''&#39;'' [CHR 0x27]
         (replaceAll ''&quot;'' [CHR 0x22]
          (replaceAll ''&gt;'' ''>''
           (replaceAll ''&lt;'' ''<''
            (replaceAll ''&amp;'' ''&'' text)))))))"


section \<open>Segments and the consolidator (src/content/youtube.ts, handleGetTranscript)\<close>

record TranscriptSegment =
  seg_text :: string
  seg_start :: jsnum
  seg_duration :: jsnum

definition CHUNK_DURATION :: jsnum where
  "CHUNK_DURATION = Num 30"

text \<open>
  The loop over \<open>segments\<close>: the state is the array \<open>consolidatedSegments\<close> and the variable
  \<open>currentChunk\<close>, which is \<open>null\<close> until the first segment.
\<close>

fun consolidateLoop ::
  "TranscriptSegment list \<Rightarrow> TranscriptSegment list \<Rightarrow> TranscriptSegment option
     \<Rightarrow> TranscriptSegment list \<times> TranscriptSegment option" where
  "consolidateLoop [] consolidatedSegments currentChunk = (consolidatedSegments, currentChunk)"
| "consolidateLoop (seg # segs) consolidatedSegments None =
     consolidateLoop segs consolidatedSegments (Some seg)"
| "consolidateLoop (seg # segs) consolidatedSegments (Some currentChunk) =
     (if jlt (jsub (seg_start seg) (seg_start currentChunk)) CHUNK_DURATION then
        consolidateLoop segs consolidatedSegments
          (Some (currentChunk
             \<lparr> seg_text := seg_text currentChunk @ '' '' @ seg_text seg,
               seg_duration := jsub (jadd (seg_start seg) (seg_duration seg)) (seg_start currentChunk) \<rparr>))
      else consolidateLoop segs (consolidatedSegments @ [currentChunk]) (Some seg))"

definition consolidate :: "TranscriptSegment list \<Rightarrow> TranscriptSegment list" where
  "consolidate segments =
     (case consolidateLoop segments [] None of
        (consolidatedSegments, None) \<Rightarrow> consolidatedSegments
      | (consolidatedSegments, Some currentChunk) \<Rightarrow> consolidatedSegments @ [currentChunk])"

subsection \<open>The consolidation rule as the specification words it\<close>

text \<open>
  A chunk opened from \<open>x\<close> takes the run of following segments whose start is less than the
  window away from the start of \<open>x\<close>; the first segment that is not opens the next chunk.
\<close>

definition inWindow :: "TranscriptSegment \<Rightarrow> TranscriptSegment \<Rightarrow> bool" where
  "inWindow x s = jlt (jsub (seg_start s) (seg_start x)) (Num 30)"

text \<open>
  The chunk of \<open>x\<close> and the merged run: the texts joined by single spaces, the start of
  \<open>x\<close>, and a duration that reaches from there to the end of the last segment merged.
\<close>

definition mergedChunk :: "TranscriptSegment \<Rightarrow> TranscriptSegment list \<Rightarrow> TranscriptSegment" where
  "mergedChunk x run =
     \<lparr> seg_text = joinWith '' '' (map seg_text (x # run)),
       seg_start = seg_start x,
       seg_duration =
         (if run = [] then seg_duration x
          else jsub (jadd (seg_start (last run)) (seg_duration (last run))) (seg_start x)) \<rparr>"

function chunksBySpec :: "TranscriptSegment list \<Rightarrow> TranscriptSegment list" where
  "chunksBySpec [] = []"
| "chunksBySpec (x # xs) =
     mergedChunk x (takeWhile (inWindow x) xs) # chunksBySpec (dropWhile (inWindow x) xs)"
  by pat_completeness auto
termination
  by (relation "measure length") (auto simp: length_dropWhile_le less_Suc_eq_le)

subsection \<open>Chunk boundaries\<close>






section \<open>Format parsers (src/lib/transcript.ts)\<close>

subsection \<open>Regular expressions as matchers\<close>

text \<open>
  Each regular expression of the source is a function that tries to match at the start of
  a string and, on success, returns the groups and the length of the match. None of the
  expressions can match in two ways at one position: a negated class is always followed by
  the character it excludes, and the lazy wildcard stops at the first closing tag. A global
  scan starts the next attempt where the last match ended (\<open>lastIndex\<close>), or one character
  later after a failure.
\<close>

abbreviation dq :: char where
  "dq \<equiv> CHR 0x22"

abbreviation newline :: char where
  "newline \<equiv> CHR 0x0A"

fun indexOfStr :: "string \<Rightarrow> string \<Rightarrow> nat option" where
  "indexOfStr [] p = (if p = [] then Some 0 else None)"
| "indexOfStr (c # cs) p =
     (if startsWith (c # cs) p then Some 0 else map_option Suc (indexOfStr cs p))"

text \<open>\<open>s.replace(re, r)\<close> for a global expression given by its matcher \<open>m\<close>.\<close>

fun replaceMatches :: "(string \<Rightarrow> nat option) \<Rightarrow> string \<Rightarrow> nat \<Rightarrow> string \<Rightarrow> string" where
  "replaceMatches m r skip [] = []"
| "replaceMatches m r (Suc k) (c # cs) = replaceMatches m r k cs"
| "replaceMatches m r 0 (c # cs) =
     (case m (c # cs) of
        None \<Rightarrow> c # replaceMatches m r 0 cs
      | Some len \<Rightarrow> r @ replaceMatches m r (len - 1) cs)"

text \<open>The cue expressions of the two XML formats differ in the tag, the attribute names and
  the class of the attribute values; \<open>matchCue\<close> takes these as arguments:
  \<open>open v1 " mid v2 " [^>]* > ([\s\S]*?) close\<close>.\<close>

definition matchCue ::
  "string \<Rightarrow> string \<Rightarrow> string \<Rightarrow> (char \<Rightarrow> bool) \<Rightarrow> string
     \<Rightarrow> ((string \<times> string \<times> string) \<times> nat) option" where
  "matchCue opn mid cls val s =
     (if \<not> startsWith s opn then None
      else
        (let s1 = drop (length opn) s;
             g1 = takeWhile val s1;
             s2 = dropWhile val s1
         in if g1 = [] \<or> \<not> startsWith s2 mid then None
            else
              (let s3 = drop (length mid) s2;
                   g2 = takeWhile val s3;
                   s4 = dropWhile val s3
               in if g2 = [] \<or> \<not> startsWith s4 [dq] then None
                  else
                    (let s6 = dropWhile (\<lambda>c. c \<noteq> CHR ''>'') (tl s4)
                     in if s6 = [] then None
                        else
                          (case indexOfStr (tl s6) cls of
                             None \<Rightarrow> None
                           | Some k \<Rightarrow>
                               Some ((g1, g2, take k (tl s6)),
                                     length s - length (tl s6) + k + length cls))))))"

fun scanAll :: "(string \<Rightarrow> ('g \<times> nat) option) \<Rightarrow> nat \<Rightarrow> string \<Rightarrow> 'g list" where
  "scanAll m skip [] = []"
| "scanAll m (Suc k) (c # cs) = scanAll m k cs"
| "scanAll m 0 (c # cs) =
     (case m (c # cs) of
        None \<Rightarrow> scanAll m 0 cs
      | Some (g, len) \<Rightarrow> g # scanAll m (len - 1) cs)"

subsection \<open>Tag-cue XML\<close>

text \<open>\<open>/<text start="([^"]+)" dur="([^"]+)"[^>]*>([\s\S]*?)<\/text>/g\<close>\<close>

definition textRegex :: "string \<Rightarrow> ((string \<times> string \<times> string) \<times> nat) option" where
  "textRegex = matchCue (''<text start='' @ [dq]) (dq # '' dur='' @ [dq]) ''</text>'' (\<lambda>c. c \<noteq> dq)"

definition xmlCue :: "string \<times> string \<times> string \<Rightarrow> TranscriptSegment list" where
  "xmlCue m =
     (case m of (g1, g2, g3) \<Rightarrow>
        (let start = parseFloat g1;
             duration = parseFloat g2;
             text = trim (replaceAll [newline] '' '' (decodeHtmlEntities g3))
         in if text \<noteq> [] then [\<lparr> seg_text = text, seg_start = start, seg_duration = duration \<rparr>]
            else []))"

definition parseXmlTranscript :: "string \<Rightarrow> TranscriptSegment list" where
  "parseXmlTranscript xml = concat (map xmlCue (scanAll textRegex 0 xml))"

subsection \<open>Structured-cue SRV3\<close>

text \<open>\<open>/<p t="(\d+)" d="(\d+)"[^>]*>([\s\S]*?)<\/p>/g\<close>\<close>

definition pRegex :: "string \<Rightarrow> ((string \<times> string \<times> string) \<times> nat) option" where
  "pRegex = matchCue (''<p t='' @ [dq]) (dq # '' d='' @ [dq]) ''</p>'' isDigit"

text \<open>\<open>/<s[^>]*>/\<close>\<close>

definition openSTag :: "string \<Rightarrow> nat option" where
  "openSTag s =
     (if startsWith s ''<s'' then
        (let rest = dropWhile (\<lambda>c. c \<noteq> CHR ''>'') (drop 2 s)
         in if rest = [] then None else Some (length s - length rest + 1))
      else None)"

definition srv3Cue :: "string \<times> string \<times> string \<Rightarrow> TranscriptSegment list" where
  "srv3Cue m =
     (case m of (g1, g2, rawText) \<Rightarrow>
        (let start = jdiv (parseInt g1) (Num 1000);
             duration = jdiv (parseInt g2) (Num 1000);
             cleanText = trim (replaceAll [newline] '' ''
                           (replaceAll ''</s>'' '''' (replaceMatches openSTag '''' 0 rawText)));
             decodedText = decodeHtmlEntities cleanText
         in if decodedText \<noteq> []
            then [\<lparr> seg_text = decodedText, seg_start = start, seg_duration = duration \<rparr>]
            else []))"

definition parseSrv3Transcript :: "string \<Rightarrow> TranscriptSegment list" where
  "parseSrv3Transcript text = concat (map srv3Cue (scanAll pRegex 0 text))"

subsection \<open>Cue-text blocks (VTT)\<close>

text \<open>
  \<open>/(?:(\d{2}):)?(\d{2}):(\d{2})\.(\d{3})\s*-->\s*(?:(\d{2}):)?(\d{2}):(\d{2})\.(\d{3})/\<close>.
  \<open>digitsThen n c s\<close> reads exactly \<open>n\<close> digits followed by the character \<open>c\<close>.
\<close>

definition digitsThen :: "nat \<Rightarrow> char \<Rightarrow> string \<Rightarrow> (string \<times> string) option" where
  "digitsThen n c s =
     (if length s > n \<and> list_all isDigit (take n s) \<and> s ! n = c
      then Some (take n s, drop (Suc n) s) else None)"

definition digitsExactly :: "nat \<Rightarrow> string \<Rightarrow> (string \<times> string) option" where
  "digitsExactly n s =
     (if length s \<ge> n \<and> list_all isDigit (take n s) then Some (take n s, drop n s) else None)"

text \<open>\<open>(\d{2}):(\d{2})\.(\d{3})\<close>: minutes, seconds, milliseconds and the rest of the string.\<close>

definition clockPart :: "string \<Rightarrow> (string \<times> string \<times> string \<times> string) option" where
  "clockPart s =
     (case digitsThen 2 (CHR '':'') s of
        None \<Rightarrow> None
      | Some (mm, r1) \<Rightarrow>
          (case digitsThen 2 (CHR ''.'') r1 of
             None \<Rightarrow> None
           | Some (ss, r2) \<Rightarrow>
               (case digitsExactly 3 r2 of
                  None \<Rightarrow> None
                | Some (ms, r3) \<Rightarrow> Some (mm, ss, ms, r3))))"

text \<open>One side of the arrow: the optional hours group is tried first, then the form without.
  \<open>k\<close> is what has to match after it.\<close>

definition stampThen ::
  "(string \<Rightarrow> 'a option) \<Rightarrow> string \<Rightarrow> ((string option \<times> string \<times> string \<times> string) \<times> 'a) option" where
  "stampThen k s =
     (let withHours =
            (case digitsThen 2 (CHR '':'') s of
               None \<Rightarrow> None
             | Some (hh, r) \<Rightarrow>
                 (case clockPart r of
                    None \<Rightarrow> None
                  | Some (mm, ss, ms, r') \<Rightarrow> map_option (\<lambda>x. ((Some hh, mm, ss, ms), x)) (k r')))
      in case withHours of
           Some res \<Rightarrow> Some res
         | None \<Rightarrow>
             (case clockPart s of
                None \<Rightarrow> None
              | Some (mm, ss, ms, r') \<Rightarrow> map_option (\<lambda>x. ((None, mm, ss, ms), x)) (k r')))"

type_synonym stamp = "string option \<times> string \<times> string \<times> string"

definition arrowThenStamp :: "string \<Rightarrow> stamp option" where
  "arrowThenStamp s =
     (let r = dropWhile isWhiteSpace s
      in if startsWith r ''-->''
         then map_option fst (stampThen (\<lambda>_. Some ()) (dropWhile isWhiteSpace (drop 3 r)))
         else None)"

fun timestampRegex :: "string \<Rightarrow> (stamp \<times> stamp) option" where
  "timestampRegex [] = stampThen arrowThenStamp []"
| "timestampRegex (c # cs) =
     (case stampThen arrowThenStamp (c # cs) of
        Some m \<Rightarrow> Some m
      | None \<Rightarrow> timestampRegex cs)"

text \<open>\<open>/<[^>]+>/\<close>\<close>

definition anyTag :: "string \<Rightarrow> nat option" where
  "anyTag s =
     (if startsWith s ''<'' then
        (let body = takeWhile (\<lambda>c. c \<noteq> CHR ''>'') (tl s);
             rest = dropWhile (\<lambda>c. c \<noteq> CHR ''>'') (tl s)
         in if body = [] \<or> rest = [] then None else Some (length body + 2))
      else None)"

definition stampSeconds :: "stamp \<Rightarrow> jsnum" where
  "stampSeconds m =
     (case m of (hh, mm, ss, ms) \<Rightarrow>
        (let H = (case hh of None \<Rightarrow> Num 0 | Some h \<Rightarrow> if h \<noteq> [] then parseInt h else Num 0);
             M = parseInt mm;
             S = parseInt ss;
             Ms = parseInt ms
         in jadd (jadd (jadd (jmul H (Num 3600)) (jmul M (Num 60))) S) (jdiv Ms (Num 1000))))"

record vttState =
  segments :: "TranscriptSegment list"
  currentStart :: jsnum
  currentDuration :: jsnum
  currentText :: string

definition pushCurrent :: "vttState \<Rightarrow> TranscriptSegment list" where
  "pushCurrent st =
     segments st @ [\<lparr> seg_text = currentText st, seg_start = currentStart st,
                      seg_duration = currentDuration st \<rparr>]"

definition vttLine :: "vttState \<Rightarrow> string \<Rightarrow> vttState" where
  "vttLine st rawLine =
     (let line = trim rawLine
      in case timestampRegex line of
           Some (startStamp, endStamp) \<Rightarrow>
             (let segs = (if jge (currentStart st) (Num 0) \<and> currentText st \<noteq> []
                          then pushCurrent st else segments st);
                  start = stampSeconds startStamp;
                  endTime = stampSeconds endStamp
              in \<lparr> segments = segs, currentStart = start,
                   currentDuration = jsub endTime start, currentText = '''' \<rparr>)
         | None \<Rightarrow>
             if line \<noteq> [] \<and> \<not> startsWith line ''WEBVTT'' \<and> \<not> list_all isDigit line
                \<and> jge (currentStart st) (Num 0) then
               (let cleanText = trim (replaceMatches anyTag '''' 0 line)
                in if cleanText \<noteq> [] then
                     st\<lparr> currentText :=
                           currentText st @ (if currentText st \<noteq> [] then '' '' else '''') @ cleanText \<rparr>
                   else st)
             else if line = [] \<and> currentText st \<noteq> [] \<and> jge (currentStart st) (Num 0) then
               st\<lparr> segments := pushCurrent st, currentText := '''', currentStart := Num (- 1) \<rparr>
             else st)"

definition parseVttTranscript :: "string \<Rightarrow> TranscriptSegment list" where
  "parseVttTranscript text =
     (let st = foldl vttLine
                 \<lparr> segments = [], currentStart = Num (- 1), currentDuration = Num 0,
                   currentText = '''' \<rparr>
                 (splitOn newline text)
      in if currentText st \<noteq> [] \<and> jge (currentStart st) (Num 0) then pushCurrent st
         else segments st)"

subsection \<open>Event-stream JSON\<close>

text \<open>
  \<open>JSON.parse\<close> belongs to the host. Its result is a value of type \<open>json\<close> (an object is the
  list of its members, keys distinct), and \<open>None\<close> when it throws a \<open>SyntaxError\<close>. The host
  also prints numbers; that is only needed where a number stands in the place of a string.
\<close>

datatype json = JNull | JBool bool | JNum real | JStr string | JArr "json list"
  | JObj "(string \<times> json) list"

datatype jsval = Undefined | Val json

record host =
  JSON_parse :: "string \<Rightarrow> json option"
  numberToString :: "real \<Rightarrow> string"

fun truthy :: "jsval \<Rightarrow> bool" where
  "truthy Undefined = False"
| "truthy (Val JNull) = False"
| "truthy (Val (JBool b)) = b"
| "truthy (Val (JNum r)) = (r \<noteq> 0)"
| "truthy (Val (JStr s)) = (s \<noteq> [])"
| "truthy (Val (JArr xs)) = True"
| "truthy (Val (JObj kvs)) = True"

text \<open>
  Reading a property. On \<open>null\<close> it throws a \<open>TypeError\<close>, which is \<open>None\<close>. The names the
  source reads (\<open>events\<close>, \<open>segs\<close>, \<open>utf8\<close>, \<open>tStartMs\<close>, \<open>dDurationMs\<close>) are defined on no
  string, number, boolean or array, so there the read gives \<open>undefined\<close>.
\<close>

fun getProp :: "json \<Rightarrow> string \<Rightarrow> jsval option" where
  "getProp JNull k = None"
| "getProp (JObj kvs) k = Some (case map_of kvs k of None \<Rightarrow> Undefined | Some v \<Rightarrow> Val v)"
| "getProp v k = Some Undefined"

text \<open>\<open>a || d\<close>\<close>

fun orElse :: "jsval \<Rightarrow> json \<Rightarrow> json" where
  "orElse Undefined d = d"
| "orElse (Val v) d = (if truthy (Val v) then v else d)"

text \<open>Conversion to a string; inside an array \<open>null\<close> prints as the empty string.\<close>

fun toStr :: "(real \<Rightarrow> string) \<Rightarrow> json \<Rightarrow> string" where
  "toStr p JNull = ''null''"
| "toStr p (JBool b) = (if b then ''true'' else ''false'')"
| "toStr p (JNum r) = p r"
| "toStr p (JStr s) = s"
| "toStr p (JArr xs) = joinWith '','' (map (\<lambda>x. if x = JNull then '''' else toStr p x) xs)"
| "toStr p (JObj kvs) = ''[object Object]''"

fun toNumber :: "(real \<Rightarrow> string) \<Rightarrow> json \<Rightarrow> jsnum" where
  "toNumber p JNull = Num 0"
| "toNumber p (JBool b) = Num (if b then 1 else 0)"
| "toNumber p (JNum r) = Num r"
| "toNumber p (JStr s) = Number s"
| "toNumber p v = Number (toStr p v)"

text \<open>\<open>for (const x of v)\<close>: arrays and strings can be iterated, anything else throws.\<close>

fun iterate :: "json \<Rightarrow> json list option" where
  "iterate (JArr xs) = Some xs"
| "iterate (JStr s) = Some (map (\<lambda>c. JStr [c]) s)"
| "iterate v = None"

text \<open>\<open>xs.map(f)\<close> with a callback that may throw.\<close>

fun mapThrowing :: "('a \<Rightarrow> 'b option) \<Rightarrow> 'a list \<Rightarrow> 'b list option" where
  "mapThrowing f [] = Some []"
| "mapThrowing f (x # xs) =
     (case f x of
        None \<Rightarrow> None
      | Some y \<Rightarrow> (case mapThrowing f xs of None \<Rightarrow> None | Some ys \<Rightarrow> Some (y # ys)))"

text \<open>The body of the loop over \<open>events\<close>: the segments it pushes, or \<open>None\<close> when it throws.\<close>

definition json3Event :: "host \<Rightarrow> json \<Rightarrow> TranscriptSegment list option" where
  "json3Event h event =
     (case getProp event ''segs'' of
        None \<Rightarrow> None
      | Some segs \<Rightarrow>
          if \<not> truthy segs then Some []
          else
            (case segs of
               Val (JArr xs) \<Rightarrow>
                 (case mapThrowing
                         (\<lambda>seg. map_option (\<lambda>u. orElse u (JStr '''')) (getProp seg ''utf8'')) xs of
                    None \<Rightarrow> None
                  | Some parts \<Rightarrow>
                      (let segText = trim (concat (map (toStr (numberToString h)) parts))
                       in if segText \<noteq> [] then
                            Some [\<lparr> seg_text = segText,
                                    seg_start =
                                      jdiv (toNumber (numberToString h)
                                              (orElse (case getProp event ''tStartMs'' of
                                                         None \<Rightarrow> Undefined | Some v \<Rightarrow> v) (JNum 0)))
                                           (Num 1000),
                                    seg_duration =
                                      jdiv (toNumber (numberToString h)
                                              (orElse (case getProp event ''dDurationMs'' of
                                                         None \<Rightarrow> Undefined | Some v \<Rightarrow> v) (JNum 0)))
                                           (Num 1000) \<rparr>]
                          else Some []))
             | _ \<Rightarrow> None))"

text \<open>The loop sits in a \<open>try\<close> whose \<open>catch\<close> is empty: what was pushed before a throw stays.\<close>

fun json3Loop :: "host \<Rightarrow> json list \<Rightarrow> TranscriptSegment list \<Rightarrow> TranscriptSegment list" where
  "json3Loop h [] segs = segs"
| "json3Loop h (event # events) segs =
     (case json3Event h event of
        None \<Rightarrow> segs
      | Some new \<Rightarrow> json3Loop h events (segs @ new))"

definition parseJson3Transcript :: "host \<Rightarrow> string \<Rightarrow> TranscriptSegment list" where
  "parseJson3Transcript h text =
     (case JSON_parse h text of
        None \<Rightarrow> []
      | Some data \<Rightarrow>
          (case getProp data ''events'' of
             None \<Rightarrow> []
           | Some ev \<Rightarrow>
               (case iterate (orElse ev (JArr [])) of
                  None \<Rightarrow> []
                | Some events \<Rightarrow> json3Loop h events [])))"

subsection \<open>Timing lines of the two forms\<close>

text \<open>
  The source names the two forms \<open>HH:MM:SS.mmm\<close> and \<open>MM:SS.mmm\<close>. \<open>stampText\<close> writes a
  time stamp in the one or the other, according to whether it has hours.
\<close>

definition digitString :: "nat \<Rightarrow> string \<Rightarrow> bool" where
  "digitString n s = (length s = n \<and> list_all isDigit s)"

definition wellFormedStamp :: "stamp \<Rightarrow> bool" where
  "wellFormedStamp m =
     (case m of (hh, mm, ss, ms) \<Rightarrow>
        (case hh of None \<Rightarrow> True | Some h \<Rightarrow> digitString 2 h)
        \<and> digitString 2 mm \<and> digitString 2 ss \<and> digitString 3 ms)"

definition stampText :: "stamp \<Rightarrow> string" where
  "stampText m =
     (case m of (hh, mm, ss, ms) \<Rightarrow>
        (case hh of None \<Rightarrow> '''' | Some h \<Rightarrow> h @ '':'') @ mm @ '':'' @ ss @ ''.'' @ ms)"

section \<open>Track selection\<close>

record CaptionTrack =
  baseUrl :: string
  languageCode :: string
  kind :: "string option"
  vssId :: "string option"

subsection \<open>Strategy 4: player response tracks (src/content/youtube.ts, handleGetTranscript)\<close>

text \<open>The three steps of the source; the last one is only reached with a non-empty array.\<close>

definition selectTrack :: "CaptionTrack list \<Rightarrow> CaptionTrack option" where
  "selectTrack captionTracks =
     (case find (\<lambda>t. languageCode t = ''en'' \<and> kind t \<noteq> Some ''asr'') captionTracks of
        Some t \<Rightarrow> Some t
      | None \<Rightarrow>
          (case find (\<lambda>t. languageCode t = ''en'') captionTracks of
             Some t \<Rightarrow> Some t
           | None \<Rightarrow> (case captionTracks of [] \<Rightarrow> None | t # _ \<Rightarrow> Some t)))"

subsection \<open>The policy as the specification words it\<close>

definition manuallyAuthored :: "CaptionTrack \<Rightarrow> bool" where
  "manuallyAuthored t = (kind t \<noteq> Some ''asr'')"

definition trackPolicy :: "string \<Rightarrow> CaptionTrack list \<Rightarrow> CaptionTrack option" where
  "trackPolicy dflt tracks =
     (case filter (\<lambda>t. languageCode t = dflt \<and> manuallyAuthored t) tracks of
        t # _ \<Rightarrow> Some t
      | [] \<Rightarrow>
          (case filter (\<lambda>t. languageCode t = dflt \<and> \<not> manuallyAuthored t) tracks of
             t # _ \<Rightarrow> Some t
           | [] \<Rightarrow> (case tracks of [] \<Rightarrow> None | t # _ \<Rightarrow> Some t)))"

subsection \<open>Strategy 3: the timedtext listing (src/content/youtube.ts, fetchTranscriptViaYtApi)\<close>

text \<open>\<open>/lang_code="([^"]+)"/g\<close>\<close>

definition langCodeRegex :: "string \<Rightarrow> (string \<times> nat) option" where
  "langCodeRegex s =
     (if startsWith s (''lang_code='' @ [dq]) then
        (let g = takeWhile (\<lambda>c. c \<noteq> dq) (drop 11 s);
             rest = dropWhile (\<lambda>c. c \<noteq> dq) (drop 11 s)
         in if g = [] \<or> rest = [] then None else Some (g, 11 + length g + 1))
      else None)"

definition ytApiLanguages :: "string \<Rightarrow> string list" where
  "ytApiLanguages listText = scanAll langCodeRegex 0 listText"

definition ytApiIsAsr :: "string \<Rightarrow> bool" where
  "ytApiIsAsr listText = includesStr listText (''kind='' @ [dq] @ ''asr'' @ [dq])"

definition ytApiLang :: "string \<Rightarrow> string" where
  "ytApiLang listText =
     (let languages = ytApiLanguages listText
      in if ''en'' \<in> set languages then ''en''
         else (case languages of [] \<Rightarrow> ''en'' | l # _ \<Rightarrow> if l \<noteq> [] then l else ''en''))"

definition ytApiUrlVariants :: "string \<Rightarrow> string \<Rightarrow> string list" where
  "ytApiUrlVariants videoId listText =
     (let lang = ytApiLang listText;
          isAsr = ytApiIsAsr listText;
          base = ''https://www.youtube.com/api/timedtext?v='' @ videoId @ ''&lang='' @ lang
                   @ (if isAsr then ''&kind=asr'' else '''')
      in [base,
          base @ ''&fmt=srv3'',
          base @ ''&fmt=json3'',
          ''https://www.youtube.com/api/timedtext?v='' @ videoId @ ''&asr_langs='' @ lang
            @ ''&caps=asr''])"

text \<open>
  What strategy 3 asks for, as a language and a kind, and the same for a track.
\<close>

definition ytApiChoice :: "string \<Rightarrow> string \<times> bool" where
  "ytApiChoice listText = (ytApiLang listText, ytApiIsAsr listText)"

definition choiceOfTrack :: "CaptionTrack \<Rightarrow> string \<times> bool" where
  "choiceOfTrack t = (languageCode t, kind t = Some ''asr'')"

text \<open>
  The listing document for a list of tracks, reduced to what the source reads in it: one
  \<open>track\<close> element per track with its \<open>lang_code\<close>, and \<open>kind="asr"\<close> on the auto-generated
  ones.
\<close>

definition trackElement :: "CaptionTrack \<Rightarrow> string" where
  "trackElement t =
     ''<track lang_code='' @ [dq] @ languageCode t @ [dq]
       @ (case kind t of None \<Rightarrow> '''' | Some k \<Rightarrow> '' kind='' @ [dq] @ k @ [dq]) @ ''/>''"

definition trackListing :: "CaptionTrack list \<Rightarrow> string" where
  "trackListing tracks = ''<transcript_list>'' @ concat (map trackElement tracks) @ ''</transcript_list>''"

section \<open>The retrieval chain (src/content/youtube.ts, handleGetTranscript)\<close>

text \<open>
  The content script reads the page and the network. Their state is a value \<open>'w\<close> that every
  strategy takes and returns. The strategies are parameters: the first three catch whatever
  they throw and return an array; \<open>fetchTranscriptDirect\<close> decodes its argument before its
  \<open>try\<close> and so can throw a \<open>URIError\<close>. \<open>getPlayerResponse\<close> gives the caption tracks of
  the player response, the empty list when it has none, and \<open>None\<close> when there is no player
  response.
\<close>

datatype error = Error string | URIError

record 'w env =
  getVideoIdFromUrl :: "'w \<Rightarrow> string option"
  fetchTranscriptViaInnertube :: "string \<Rightarrow> 'w \<Rightarrow> TranscriptSegment list \<times> 'w"
  getTranscriptFromDOM :: "'w \<Rightarrow> TranscriptSegment list \<times> 'w"
  fetchTranscriptViaYtApi :: "string \<Rightarrow> 'w \<Rightarrow> TranscriptSegment list \<times> 'w"
  getPlayerResponse :: "'w \<Rightarrow> CaptionTrack list option \<times> 'w"
  fetchTranscriptDirect :: "string \<Rightarrow> 'w \<Rightarrow> (error + TranscriptSegment list) \<times> 'w"
  documentTitle :: "'w \<Rightarrow> string"

record transcriptResponse =
  transcript :: string
  videoId :: string
  videoTitle :: string

text \<open>\<open>/\s+/\<close>\<close>

definition whiteSpaceRun :: "string \<Rightarrow> nat option" where
  "whiteSpaceRun s =
     (let n = length (takeWhile isWhiteSpace s) in if n = 0 then None else Some n)"

text \<open>\<open>s.replace(p, r)\<close> with a string pattern replaces the first occurrence only.\<close>

fun replaceFirst :: "string \<Rightarrow> string \<Rightarrow> string \<Rightarrow> string" where
  "replaceFirst p r [] = (if p = [] then r else [])"
| "replaceFirst p r (c # cs) =
     (if startsWith (c # cs) p then r @ drop (length p) (c # cs) else c # replaceFirst p r cs)"

definition formatChunk :: "TranscriptSegment \<Rightarrow> string" where
  "formatChunk seg =
     (let cleanText = trim (replaceMatches whiteSpaceRun '' '' 0 (decodeHtmlEntities (seg_text seg)))
      in ''['' @ formatTimestamp (seg_start seg) @ ''] '' @ cleanText)"

definition respond :: "'w env \<Rightarrow> string \<Rightarrow> 'w \<Rightarrow> TranscriptSegment list \<Rightarrow> transcriptResponse" where
  "respond env vid w segs =
     \<lparr> transcript = joinWith [newline] (map formatChunk (consolidate segs)),
       videoId = vid,
       videoTitle = trim (replaceFirst '' - YouTube'' '''' (documentTitle env w)) \<rparr>"

text \<open>Method 3 of the source, the fourth strategy: the tracks of the player response.\<close>

definition playerResponseFallback ::
  "'w env \<Rightarrow> string \<Rightarrow> 'w \<Rightarrow> (error + TranscriptSegment list) \<times> 'w" where
  "playerResponseFallback env vid w =
     (case getPlayerResponse env w of
        (None, w1) \<Rightarrow> (Inr [], w1)
      | (Some captionTracks, w1) \<Rightarrow>
          (case selectTrack captionTracks of
             None \<Rightarrow> (Inr [], w1)
           | Some selectedTrack \<Rightarrow>
               (case fetchTranscriptDirect env (baseUrl selectedTrack) w1 of
                  (Inl e, w2) \<Rightarrow> (Inl e, w2)
                | (Inr segs, w2) \<Rightarrow>
                    if segs = [] \<and> vssId selectedTrack \<noteq> None \<and> vssId selectedTrack \<noteq> Some ''''
                    then fetchTranscriptDirect env
                           (''https://www.youtube.com/api/timedtext?v='' @ vid @ ''&caps=asr&vssId=''
                              @ the (vssId selectedTrack) @ ''&lang='' @ languageCode selectedTrack) w2
                    else (Inr segs, w2))))"

definition noTranscript :: error where
  "noTranscript = Error ''No transcript available. This video may not have captions enabled.''"

definition handleGetTranscript :: "'w env \<Rightarrow> 'w \<Rightarrow> (error + transcriptResponse) \<times> 'w" where
  "handleGetTranscript env w =
     (case getVideoIdFromUrl env w of
        None \<Rightarrow> (Inl (Error ''Not a YouTube video page''), w)
      | Some vid \<Rightarrow>
          (case fetchTranscriptViaInnertube env vid w of
             (s1, w1) \<Rightarrow>
               (case (if s1 = [] then getTranscriptFromDOM env w1 else (s1, w1)) of
                  (s2, w2) \<Rightarrow>
                    (case (if s2 = [] then fetchTranscriptViaYtApi env vid w2 else (s2, w2)) of
                       (s3, w3) \<Rightarrow>
                         (case (if s3 = [] then playerResponseFallback env vid w3
                                else (Inr s3, w3)) of
                            (Inl e, w4) \<Rightarrow> (Inl e, w4)
                          | (Inr s4, w4) \<Rightarrow>
                              if s4 = [] then (Inl noTranscript, w4)
                              else (Inr (respond env vid w4 s4), w4))))))"

subsection \<open>Recording the calls\<close>

text \<open>
  To say which strategies a run invokes, every parameter is wrapped so that it appends its
  name to a log kept beside the state.
\<close>

datatype call = Innertube string | DomScrape | YtApi string | PlayerResponse | Direct string

definition logged :: "'w env \<Rightarrow> ('w \<times> call list) env" where
  "logged env =
     \<lparr> getVideoIdFromUrl = (\<lambda>(w, log). getVideoIdFromUrl env w),
       fetchTranscriptViaInnertube =
         (\<lambda>vid (w, log). case fetchTranscriptViaInnertube env vid w of
                             (r, w') \<Rightarrow> (r, (w', log @ [Innertube vid]))),
       getTranscriptFromDOM =
         (\<lambda>(w, log). case getTranscriptFromDOM env w of (r, w') \<Rightarrow> (r, (w', log @ [DomScrape]))),
       fetchTranscriptViaYtApi =
         (\<lambda>vid (w, log). case fetchTranscriptViaYtApi env vid w of
                             (r, w') \<Rightarrow> (r, (w', log @ [YtApi vid]))),
       getPlayerResponse =
         (\<lambda>(w, log). case getPlayerResponse env w of (r, w') \<Rightarrow> (r, (w', log @ [PlayerResponse]))),
       fetchTranscriptDirect =
         (\<lambda>url (w, log). case fetchTranscriptDirect env url w of
                             (r, w') \<Rightarrow> (r, (w', log @ [Direct url]))),
       documentTitle = (\<lambda>(w, log). documentTitle env w) \<rparr>"

definition callsOf :: "'w env \<Rightarrow> 'w \<Rightarrow> call list" where
  "callsOf env w = snd (snd (handleGetTranscript (logged env) (w, [])))"

section \<open>Rounding: proofs\<close>

lemma expoUp_spec:
  "1 \<le> ax \<Longrightarrow> ax < 2 ^ Suc k \<Longrightarrow>
     0 \<le> expoUp k ax \<and> 2 powi (expoUp k ax) \<le> ax \<and> ax < 2 powi (expoUp k ax + 1)"
proof (induction k arbitrary: ax)
  case 0
  then show ?case by simp
next
  case (Suc k)
  show ?case
  proof (cases "ax < 2")
    case True
    with Suc.prems show ?thesis by simp
  next
    case False
    then have a: "1 \<le> ax / 2" by simp
    from Suc.prems have b: "ax / 2 < 2 ^ Suc k" by simp
    from Suc.IH[OF a b] have ih: "0 \<le> expoUp k (ax / 2)" "2 powi (expoUp k (ax / 2)) \<le> ax / 2"
      "ax / 2 < 2 powi (expoUp k (ax / 2) + 1)" by simp_all
    have "2 powi (expoUp k (ax / 2) + 1) = 2 powi (expoUp k (ax / 2)) * (2::real)"
      by (simp add: power_int_add)
    moreover have "2 powi (expoUp k (ax / 2) + 1 + 1) = 2 powi (expoUp k (ax / 2) + 1) * (2::real)"
      by (simp add: power_int_add)
    ultimately show ?thesis using ih False by simp
  qed
qed

lemma expoDown_spec:
  "0 < ax \<Longrightarrow> ax < 1 \<Longrightarrow> 2 powi (- int k) \<le> ax \<Longrightarrow>
     expoDown k ax < 0 \<and> 2 powi (expoDown k ax) \<le> ax \<and> ax < 2 powi (expoDown k ax + 1)"
proof (induction k arbitrary: ax)
  case 0
  then show ?case by simp
next
  case (Suc k)
  show ?case
  proof (cases "1 \<le> ax * 2")
    case True
    have "expoDown (Suc k) ax = expoDown k (ax * 2) - 1" using Suc.prems by simp
    moreover have "expoDown k (ax * 2) = 0" using True by (cases k) simp_all
    ultimately have "expoDown (Suc k) ax = - 1" by simp
    with Suc.prems True show ?thesis by (simp add: power_int_minus)
  next
    case False
    then have a: "ax * 2 < 1" by simp
    have "2 powi (- int (Suc k) + 1) = 2 powi (- int (Suc k)) * (2::real)"
      by (subst power_int_add) simp_all
    then have "2 powi (- int (Suc k)) * (2::real) = 2 powi (- int k)"
      by simp
    with Suc.prems have b: "2 powi (- int k) \<le> ax * 2" by (smt (verit) mult_right_mono)
    from Suc.prems have c: "0 < ax * 2" by simp
    from Suc.IH[OF c a b] have ih: "expoDown k (ax * 2) < 0" "2 powi (expoDown k (ax * 2)) \<le> ax * 2"
      "ax * 2 < 2 powi (expoDown k (ax * 2) + 1)" by simp_all
    have e: "expoDown (Suc k) ax = expoDown k (ax * 2) - 1" using Suc.prems by simp
    have "2 powi (expoDown k (ax * 2)) = 2 powi (expoDown k (ax * 2) - 1) * (2::real)"
      by (simp add: power_int_diff)
    moreover have "2 powi (expoDown k (ax * 2) + 1) = 2 powi (expoDown k (ax * 2)) * (2::real)"
      by (simp add: power_int_add)
    ultimately show ?thesis using ih e by simp
  qed
qed

lemma expo_spec:
  assumes "2 powi (- 1022) \<le> \<bar>x\<bar>" and "\<bar>x\<bar> < 2 ^ 1024"
  shows "2 powi (expo x) \<le> \<bar>x\<bar> \<and> \<bar>x\<bar> < 2 powi (expo x + 1)"
proof (cases "1 \<le> \<bar>x\<bar>")
  case True
  have "\<bar>x\<bar> < 2 ^ Suc 1023" using assms(2) by simp
  from expoUp_spec[OF True this] True show ?thesis by (simp add: expo_def)
next
  case False
  then have lt: "\<bar>x\<bar> < 1" by simp
  have pos: "0 < \<bar>x\<bar>" using assms(1) by (smt (verit) zero_less_power_int)
  have "2 powi (- int 1022) \<le> \<bar>x\<bar>" using assms(1) by simp
  from expoDown_spec[OF pos lt this] False show ?thesis by (simp add: expo_def)
qed

lemma expo_unique:
  assumes "2 powi e \<le> \<bar>x\<bar>" and "\<bar>x\<bar> < 2 powi (e + 1)" and "- 1022 \<le> e" and "e \<le> 1023"
  shows "expo x = e"
proof -
  have lo: "(2::real) powi (- 1022) \<le> 2 powi e"
    using assms(3) by (intro power_int_increasing) simp_all
  have hi: "(2::real) powi (e + 1) \<le> 2 powi 1024"
    using assms(4) by (intro power_int_increasing) simp_all
  have a: "2 powi (- 1022) \<le> \<bar>x\<bar>" using lo assms(1) by linarith
  have b: "\<bar>x\<bar> < 2 ^ 1024" using hi assms(2) by simp
  from expo_spec[OF a b] have s: "2 powi (expo x) \<le> \<bar>x\<bar>" "\<bar>x\<bar> < 2 powi (expo x + 1)"
    by simp_all
  have "expo x < e + 1"
  proof (rule ccontr)
    assume "\<not> expo x < e + 1"
    then have "(2::real) powi (e + 1) \<le> 2 powi (expo x)"
      by (intro power_int_increasing) simp_all
    with s(1) assms(2) show False by linarith
  qed
  moreover have "e < expo x + 1"
  proof (rule ccontr)
    assume "\<not> e < expo x + 1"
    then have "(2::real) powi (expo x + 1) \<le> 2 powi e"
      by (intro power_int_increasing) simp_all
    with s(2) assms(1) show False by linarith
  qed
  ultimately show ?thesis by simp
qed

lemma roundHalfEven_of_int: "roundHalfEven (of_int z) = z"
  by (simp add: roundHalfEven_def)

lemma fl_multiple:
  assumes "x = 2 powi (expo x - 52) * of_int z"
  shows "fl x = x"
proof (cases "x = 0")
  case True
  then show ?thesis by (simp add: fl_def)
next
  case False
  let ?q = "(2::real) powi (expo x - 52)"
  have q: "?q \<noteq> 0" by simp
  have "x / ?q = of_int z" using assms q by (metis nonzero_mult_div_cancel_left)
  then have "roundHalfEven (x / ?q) = z" by (simp only: roundHalfEven_of_int)
  with False assms show ?thesis by (simp add: fl_def Let_def)
qed

lemma pow2_neg: "(2::real) powi (- int k) = 1 / 2 ^ k"
  by (simp add: power_int_minus field_simps)

lemma expo_int_bounds:
  fixes m :: int
  assumes "m \<noteq> 0" and "\<bar>m\<bar> \<le> 2 ^ 53"
  shows "0 \<le> expo (of_int m)" and "expo (of_int m) \<le> 53"
    and "2 powi (expo (of_int m)) \<le> \<bar>real_of_int m\<bar>"
proof -
  let ?x = "real_of_int m" and ?e = "expo (real_of_int m)"
  have "1 \<le> \<bar>m\<bar>" using assms(1) by simp
  then have "real_of_int 1 \<le> real_of_int \<bar>m\<bar>" by (simp only: of_int_le_iff)
  then have one: "1 \<le> \<bar>?x\<bar>" by simp
  have le: "\<bar>?x\<bar> \<le> 2 ^ 53" using assms(2) by (metis of_int_abs of_int_le_iff of_int_numeral of_int_power)
  have a: "2 powi (- 1022) \<le> \<bar>?x\<bar>"
  proof -
    have "(2::real) powi (- 1022) \<le> 2 powi 0" by (intro power_int_increasing) simp_all
    with one show ?thesis by simp
  qed
  have b: "\<bar>?x\<bar> < 2 ^ 1024"
  proof -
    have "(2::real) ^ 53 < 2 ^ 1024" by (intro power_strict_increasing) simp_all
    with le show ?thesis by linarith
  qed
  from expo_spec[OF a b] have s: "2 powi ?e \<le> \<bar>?x\<bar>" "\<bar>?x\<bar> < 2 powi (?e + 1)" by simp_all
  show "2 powi ?e \<le> \<bar>?x\<bar>" by (rule s(1))
  show "0 \<le> ?e"
  proof (rule ccontr)
    assume "\<not> 0 \<le> ?e"
    then have "(2::real) powi (?e + 1) \<le> 2 powi 0" by (intro power_int_increasing) simp_all
    with s(2) one show False by simp
  qed
  show "?e \<le> 53"
  proof (rule ccontr)
    assume "\<not> ?e \<le> 53"
    then have "(2::real) powi 54 \<le> 2 powi ?e" by (intro power_int_increasing) simp_all
    moreover have "(2::real) powi 54 = 2 ^ 54" by (simp add: power_int_def)
    ultimately show False using s(1) le by simp
  qed
qed

lemma fl_of_int:
  fixes m :: int
  assumes "\<bar>m\<bar> \<le> 2 ^ 53"
  shows "fl (of_int m) = of_int m"
proof (cases "m = 0")
  case True
  then show ?thesis by (simp add: fl_def)
next
  case False
  let ?x = "real_of_int m" and ?e = "expo (real_of_int m)"
  note b = expo_int_bounds[OF False assms]
  show ?thesis
  proof (cases "?e \<le> 52")
    case True
    define k where "k = nat (52 - ?e)"
    have e: "?e - 52 = - int k" using True by (simp add: k_def)
    have "?x = 2 powi (?e - 52) * of_int (m * 2 ^ k)"
      unfolding e pow2_neg by simp
    then show ?thesis by (rule fl_multiple)
  next
    case False
    with b(2) have e: "?e = 53" by simp
    have "(2::real) powi 53 = 2 ^ 53" by (simp add: power_int_def)
    with b(3) e have "2 ^ 53 \<le> \<bar>?x\<bar>" by simp
    then have "2 ^ 53 \<le> \<bar>m\<bar>"
      by (metis of_int_abs of_int_le_iff of_int_numeral of_int_power)
    with assms have "\<bar>m\<bar> = 2 ^ 53" by simp
    then have "even m" by (cases "m < 0") (simp_all, presburger)
    then have "m = 2 * (m div 2)" by simp
    then have h: "?x = 2 * of_int (m div 2)" by (metis of_int_mult of_int_numeral)
    have q: "2 powi (?e - 52) = (2::real)" by (simp add: e)
    have "?x = 2 powi (?e - 52) * of_int (m div 2)" unfolding q by (rule h)
    then show ?thesis by (rule fl_multiple)
  qed
qed

lemma fl_of_nat: "n \<le> 2 ^ 53 \<Longrightarrow> fl (real n) = real n"
proof -
  assume "n \<le> 2 ^ 53"
  then have "\<bar>int n\<bar> \<le> 2 ^ 53" by (metis abs_of_nat of_nat_le_iff of_nat_numeral of_nat_power)
  from fl_of_int[OF this] show ?thesis by simp
qed

lemma fl_numeral: "(numeral w :: nat) \<le> 2 ^ 53 \<Longrightarrow> fl (numeral w) = numeral w"
  using fl_of_nat[of "numeral w"] by simp

lemma fl_one: "fl 1 = 1"
  using fl_of_nat[of 1] by simp

lemma roundHalfEven_bounds:
  assumes "of_int A \<le> y" and "y \<le> of_int B - c" and "1 / 2 < c"
  shows "A \<le> roundHalfEven y \<and> roundHalfEven y \<le> B - 1"
proof -
  let ?f = "floor y"
  have fA: "A \<le> ?f" using assms(1) by (simp add: le_floor_iff)
  have fy: "of_int ?f \<le> y" by simp
  have yB: "y < of_int B - 1 / 2" using assms(2,3) by linarith
  have r: "roundHalfEven y = ?f \<or> (roundHalfEven y = ?f + 1 \<and> 1 / 2 \<le> y - of_int ?f)"
    by (auto simp: roundHalfEven_def Let_def)
  have up1: "?f \<le> B - 1"
  proof -
    from fy yB have "real_of_int ?f < of_int B" by linarith
    then have "?f < B" by (simp only: of_int_less_iff)
    then show ?thesis by simp
  qed
  have up2: "?f + 1 \<le> B - 1" if "1 / 2 \<le> y - of_int ?f"
  proof -
    from that yB have "real_of_int ?f < of_int B - 1" by linarith
    then have "real_of_int ?f < of_int (B - 1)" by simp
    then have "?f < B - 1" by (simp only: of_int_less_iff)
    then show ?thesis by simp
  qed
  from r fA up1 up2 show ?thesis by auto
qed

lemma floor_fl_quot:
  fixes a d :: nat
  assumes d: "0 < d" and a: "0 < a"
    and up: "real a / real d < 2 powi E" and E: "E \<le> 53"
    and dq: "real d * 2 powi (E - 53) < 2"
    and lo: "2 powi (- 1022) \<le> real a / real d"
  shows "floor (fl (real a / real d)) = int (a div d)"
proof -
  let ?x = "real a / real d"
  let ?e = "expo ?x"
  have pos: "0 < ?x" using d a by simp
  have ax: "\<bar>?x\<bar> = ?x" using pos by simp
  have "(2::real) powi E \<le> 2 powi 1024" using E by (intro power_int_increasing) simp_all
  with up have hi: "\<bar>?x\<bar> < 2 ^ 1024" unfolding ax by simp
  from lo have lo': "2 powi (- 1022) \<le> \<bar>?x\<bar>" unfolding ax .
  from expo_spec[OF lo' hi] have s: "2 powi ?e \<le> ?x" unfolding ax by simp
  have eE: "?e \<le> E - 1"
  proof (rule ccontr)
    assume "\<not> ?e \<le> E - 1"
    then have "(2::real) powi E \<le> 2 powi ?e" by (intro power_int_increasing) simp_all
    with s up show False by linarith
  qed
  define k where "k = nat (52 - ?e)"
  define N where "N = (2::nat) ^ k"
  define q where "q = (2::real) powi (?e - 52)"
  have ek: "?e - 52 = - int k" using eE E by (simp add: k_def)
  have qN: "q = 1 / real N" unfolding q_def ek pow2_neg N_def by simp
  have Npos: "0 < real N" by (simp add: N_def)
  have "q \<le> 2 powi (E - 53)" unfolding q_def using eE by (intro power_int_increasing) simp_all
  then have "real d * q \<le> real d * 2 powi (E - 53)" by (intro mult_left_mono) simp_all
  with dq have "real d * q < 2" by linarith
  then have c: "1 / 2 < real N / real d" using d Npos by (simp add: qN field_simps)
  let ?k = "a div d"
  have le1: "real ?k \<le> ?x"
  proof -
    have "real (?k * d) \<le> real a" by (simp only: of_nat_le_iff) simp
    then show ?thesis using d by (simp add: field_simps)
  qed
  have le2: "?x \<le> real ?k + 1 - 1 / real d"
  proof -
    have "a mod d < d" using d by simp
    then have "a mod d + 1 \<le> d" by simp
    moreover have "a = ?k * d + a mod d" by simp
    ultimately have "a + 1 \<le> ?k * d + d" by linarith
    then have "real (a + 1) \<le> real (?k * d + d)" by (simp only: of_nat_le_iff)
    then have "real a + 1 \<le> real ?k * real d + real d" by simp
    then show ?thesis using d by (simp add: field_simps)
  qed
  have y: "?x / q = ?x * real N" by (simp add: qN)
  have "real ?k * real N \<le> ?x * real N"
    using le1 Npos by (intro mult_right_mono) simp_all
  then have A: "of_int (int (?k * N)) \<le> ?x / q"
    unfolding y by simp
  have B: "?x / q \<le> of_int (int ((?k + 1) * N)) - real N / real d"
  proof -
    have "?x * real N \<le> (real ?k + 1 - 1 / real d) * real N"
      using le2 Npos by (intro mult_right_mono) simp_all
    then show ?thesis unfolding y by (simp add: field_simps)
  qed
  from roundHalfEven_bounds[OF A B c]
  have R: "int (?k * N) \<le> roundHalfEven (?x / q)" "roundHalfEven (?x / q) \<le> int ((?k + 1) * N) - 1"
    by simp_all
  have "?x \<noteq> 0" using pos by linarith
  then have flx: "fl ?x = q * of_int (roundHalfEven (?x / q))"
    unfolding fl_def Let_def q_def by (simp only: if_False)
  have qpos: "0 < q" by (simp add: q_def)
  have l: "real ?k \<le> fl ?x"
  proof -
    have "real_of_int (int (?k * N)) \<le> of_int (roundHalfEven (?x / q))"
      using R(1) by (simp only: of_int_le_iff)
    then have "q * real_of_int (int (?k * N)) \<le> q * of_int (roundHalfEven (?x / q))"
      using qpos by (intro mult_left_mono) simp_all
    then show ?thesis unfolding flx using Npos by (simp add: qN)
  qed
  have u: "fl ?x < real ?k + 1"
  proof -
    have "real_of_int (roundHalfEven (?x / q)) \<le> of_int (int ((?k + 1) * N) - 1)"
      using R(2) by (simp only: of_int_le_iff)
    then have "q * real_of_int (roundHalfEven (?x / q)) \<le> q * of_int (int ((?k + 1) * N) - 1)"
      using qpos by (intro mult_left_mono) simp_all
    also have "\<dots> = real ?k + 1 - q" using Npos by (simp add: qN field_simps)
    finally show ?thesis unfolding flx using qpos by linarith
  qed
  from l u show ?thesis by (simp add: floor_unique)
qed

lemma floor_fl_3600:
  assumes "n < 2 ^ 53"
  shows "floor (fl (real n / 3600)) = int (n div 3600)"
proof (cases "n = 0")
  case True
  then show ?thesis by (simp add: fl_def)
next
  case False
  have "real n < 2 ^ 53" using assms by (metis of_nat_less_iff of_nat_numeral of_nat_power)
  then have up: "real n / real 3600 < 2 powi 42" by (simp add: power_int_def)
  have "(2::real) powi (42 - 53) = 1 / 2 ^ 11" using pow2_neg[of 11] by simp
  then have dq: "real 3600 * 2 powi (42 - 53) < 2" by simp
  have "(2::real) powi (- 1022) \<le> 2 powi (- 12)" by (intro power_int_increasing) simp_all
  also have "\<dots> \<le> 1 / 3600" using pow2_neg[of 12] by simp
  also have "\<dots> \<le> real n / real 3600" using False by simp
  finally have lo: "2 powi (- 1022) \<le> real n / real 3600" .
  from floor_fl_quot[of 3600 n 42, OF _ _ up _ dq lo] False show ?thesis by simp
qed

lemma floor_fl_60:
  assumes "r < 3600"
  shows "floor (fl (real r / 60)) = int (r div 60)"
proof (cases "r = 0")
  case True
  then show ?thesis by (simp add: fl_def)
next
  case False
  have up: "real r / real 60 < 2 powi 6" using assms by (simp add: power_int_def)
  have "(2::real) powi (6 - 53) = 1 / 2 ^ 47" using pow2_neg[of 47] by simp
  then have dq: "real 60 * 2 powi (6 - 53) < 2" by simp
  have "(2::real) powi (- 1022) \<le> 2 powi (- 6)" by (intro power_int_increasing) simp_all
  also have "\<dots> \<le> 1 / 60" using pow2_neg[of 6] by simp
  also have "\<dots> \<le> real r / real 60" using False by simp
  finally have lo: "2 powi (- 1022) \<le> real r / real 60" .
  from floor_fl_quot[of 60 r 6, OF _ _ up _ dq lo] False show ?thesis by simp
qed

section \<open>Timestamp codec and entity decoder: proofs\<close>

lemma isDigit_digitChar: "d < 10 \<Longrightarrow> isDigit (digitChar d)"
proof -
  assume "d < 10"
  then have "d \<in> {0,1,2,3,4,5,6,7,8,9}" by auto
  then show ?thesis by (auto simp: isDigit_def digitChar_def)
qed

lemma digitVal_digitChar: "d < 10 \<Longrightarrow> digitVal (digitChar d) = d"
proof -
  assume "d < 10"
  then have "d \<in> {0,1,2,3,4,5,6,7,8,9}" by auto
  then show ?thesis by (auto simp: digitVal_def digitChar_def)
qed

lemma digitsOf_digits: "\<forall>c \<in> set (digitsOf n). isDigit c"
proof (induction n rule: digitsOf.induct)
  case (1 n)
  show ?case
  proof (cases "n < 10")
    case True
    then show ?thesis by (subst digitsOf.simps) (simp add: isDigit_digitChar)
  next
    case False
    with 1 show ?thesis by (subst digitsOf.simps) (simp add: isDigit_digitChar)
  qed
qed

lemma digitsOf_nonempty: "digitsOf n \<noteq> []"
  by (subst digitsOf.simps) simp

lemma natOfDigits_snoc: "natOfDigits (ds @ [c]) = 10 * natOfDigits ds + digitVal c"
  by (simp add: natOfDigits_def)

lemma natOfDigits_digitsOf: "natOfDigits (digitsOf n) = n"
proof (induction n rule: digitsOf.induct)
  case (1 n)
  show ?case
  proof (cases "n < 10")
    case True
    then show ?thesis by (subst digitsOf.simps) (simp add: natOfDigits_def digitVal_digitChar)
  next
    case False
    with 1 show ?thesis
      by (subst digitsOf.simps) (simp add: natOfDigits_snoc digitVal_digitChar)
  qed
qed

lemma isDigit_not_ws: "isDigit c \<Longrightarrow> \<not> isWhiteSpace c"
  by (auto simp: isDigit_def isWhiteSpace_def)

lemma trim_digits:
  assumes "\<forall>c \<in> set ds. isDigit c"
  shows "trim ds = ds"
proof (cases ds rule: rev_cases)
  case Nil
  then show ?thesis by (simp add: trim_def)
next
  case (snoc ys y)
  then have y: "\<not> isWhiteSpace y" using assms by (simp add: isDigit_not_ws)
  have d: "dropWhile isWhiteSpace ds = ds"
    using assms by (cases ds) (auto simp: isDigit_not_ws)
  show ?thesis unfolding trim_def d using snoc y by simp
qed

lemma radixOf_digits:
  assumes "\<forall>c \<in> set ds. isDigit c"
  shows "radixOf ds = None"
proof -
  have "\<not> startsWith ds [a, b]" if "\<not> isDigit b" for a b
  proof
    assume "startsWith ds [a, b]"
    then have "take 2 ds = [a, b]" by (simp add: startsWith_def numeral_2_eq_2)
    then have "b \<in> set (take 2 ds)" by simp
    then have "b \<in> set ds" by (rule in_set_takeD)
    with assms that show False by blast
  qed
  then show ?thesis by (simp add: radixOf_def isDigit_def)
qed

lemma Number_digits:
  assumes "\<forall>c \<in> set ds. isDigit c" and "ds \<noteq> []"
  shows "Number ds = Num (fl (real (natOfDigits ds)))"
proof -
  have tw: "takeWhile isDigit ds = ds" using assms(1) by (simp add: takeWhile_eq_all_conv)
  have dw: "dropWhile isDigit ds = []" using assms(1) by simp
  have hd: "isDigit (hd ds)" using assms by (cases ds) auto
  have nosign: "\<not> startsWith ds ''-''" "\<not> startsWith ds ''+''"
    using assms hd by (cases ds; auto simp: startsWith_def isDigit_def)+
  have ud: "unsignedDecimal ds = Some (real (natOfDigits ds), [])"
    using assms(2)
    by (simp add: unsignedDecimal_def tw dw startsWith_def exponentPart_def decimalValue_def natOfDigits_def)
  show ?thesis
    using assms(2)
    by (simp add: Number_def trim_digits[OF assms(1)] radixOf_digits[OF assms(1)] signedDecimal_def nosign ud)
qed

lemma natOfDigits_zero_cons: "natOfDigits (CHR ''0'' # ds) = natOfDigits ds"
  by (simp add: natOfDigits_def digitVal_def)

lemma Number_digitsOf: "Number (digitsOf n) = Num (fl (real n))"
  by (simp add: Number_digits digitsOf_digits digitsOf_nonempty natOfDigits_digitsOf)

lemma natOfDigits_zeros: "natOfDigits (replicate k (CHR ''0'') @ ds) = natOfDigits ds"
  by (induction k) (simp_all add: natOfDigits_zero_cons)

lemma Number_pad_digitsOf: "Number (padStart 2 (CHR ''0'') (digitsOf n)) = Num (fl (real n))"
proof -
  define k where "k = 2 - length (digitsOf n)"
  have z: "isDigit (CHR ''0'')" by (simp add: isDigit_def)
  have a: "\<forall>c \<in> set (replicate k (CHR ''0'') @ digitsOf n). isDigit c"
    using digitsOf_digits[of n] z by (cases "k = 0") simp_all
  have b: "replicate k (CHR ''0'') @ digitsOf n \<noteq> []"
    by (simp add: digitsOf_nonempty)
  have "Number (replicate k (CHR ''0'') @ digitsOf n) = Num (fl (real n))"
    unfolding Number_digits[OF a b] natOfDigits_zeros natOfDigits_digitsOf ..
  then show ?thesis by (simp add: padStart_def k_def)
qed

lemma splitFrom_no_sep: "sep \<notin> set a \<Longrightarrow> splitFrom sep cur a = [cur @ a]"
  by (induction a arbitrary: cur) auto

lemma splitFrom_append:
  "sep \<notin> set a \<Longrightarrow> splitFrom sep cur (a @ sep # b) = (cur @ a) # splitFrom sep [] b"
  by (induction a arbitrary: cur) auto

lemma splitOn_no_sep: "sep \<notin> set a \<Longrightarrow> splitOn sep a = [a]"
  by (simp add: splitOn_def splitFrom_no_sep)

lemma splitOn_append: "sep \<notin> set a \<Longrightarrow> splitOn sep (a @ sep # b) = a # splitOn sep b"
  by (simp add: splitOn_def splitFrom_append)

lemma trunc_nat_div: "k > 0 \<Longrightarrow> trunc (real n / real k) = int (n div k)"
proof -
  assume "k > 0"
  have "0 \<le> real n / real k" by (rule divide_nonneg_nonneg) simp_all
  then have "\<not> real n / real k < 0" by (simp only: not_less)
  moreover have "floor (real n / real k) = int (n div k)"
    by (rule floor_divide_of_nat_eq)
  ultimately show ?thesis by (simp only: trunc_def if_False)
qed

lemma jrem_nat: "k > 0 \<Longrightarrow> jrem (Num (real n)) (Num (real k)) = Num (real (n mod k))"
proof -
  assume k: "k > 0"
  have "real n - real k * real (n div k) = real (n mod k)"
    by (metis add_diff_cancel_left' mult_div_mod_eq of_nat_add of_nat_mult)
  then show ?thesis using k by (simp add: trunc_nat_div)
qed

lemma toString_nat: "toString (Some (int k)) = digitsOf k"
  by simp

lemma formatTimestamp_nat:
  assumes "n < 2 ^ 53"
  shows "formatTimestamp (Num (real n)) =
     (if n div 3600 > 0 then
        digitsOf (n div 3600) @ '':'' @ padStart 2 (CHR ''0'') (digitsOf (n mod 3600 div 60)) @ '':''
          @ padStart 2 (CHR ''0'') (digitsOf (n mod 60))
      else digitsOf (n mod 3600 div 60) @ '':'' @ padStart 2 (CHR ''0'') (digitsOf (n mod 60)))"
proof -
  have h: "Math_floor (jdiv (Num (real n)) (Num 3600)) = Some (int (n div 3600))"
    by (simp add: floor_fl_3600[OF assms])
  have r1: "jrem (Num (real n)) (Num 3600) = Num (real (n mod 3600))"
    using jrem_nat[of 3600 n] by simp
  have "n mod 3600 < 3600" by simp
  then have m: "Math_floor (jdiv (jrem (Num (real n)) (Num 3600)) (Num 60)) = Some (int (n mod 3600 div 60))"
    unfolding r1 by (simp add: floor_fl_60)
  have r2: "jrem (Num (real n)) (Num 60) = Num (real (n mod 60))"
    using jrem_nat[of 60 n] by simp
  have s: "Math_floor (jrem (Num (real n)) (Num 60)) = Some (int (n mod 60))"
    unfolding r2 by simp
  show ?thesis
    unfolding formatTimestamp_def h m s Let_def toString_nat by simp
qed

lemma colon_not_digit: "\<forall>c \<in> set ds. isDigit c \<Longrightarrow> CHR '':'' \<notin> set ds"
proof -
  have "\<not> isDigit (CHR '':'')" by (simp add: isDigit_def)
  then show "\<forall>c \<in> set ds. isDigit c \<Longrightarrow> CHR '':'' \<notin> set ds" by blast
qed

lemma pad_digits: "\<forall>c \<in> set (padStart 2 (CHR ''0'') (digitsOf n)). isDigit c"
proof -
  have z: "isDigit (CHR ''0'')" by (simp add: isDigit_def)
  show ?thesis
    using digitsOf_digits[of n] z
    by (cases "2 - length (digitsOf n) = 0") (simp_all add: padStart_def)
qed

lemma parseTimestamp_two:
  assumes "CHR '':'' \<notin> set a" and "CHR '':'' \<notin> set b"
  shows "parseTimestamp (a @ '':'' @ b) = jadd (jmul (Number a) (Num 60)) (Number b)"
proof -
  have "splitOn (CHR '':'') (a @ '':'' @ b) = [a, b]"
    using assms by (simp add: splitOn_append splitOn_no_sep)
  then show ?thesis by (simp add: parseTimestamp_def elemAt_def)
qed

lemma parseTimestamp_three:
  assumes "CHR '':'' \<notin> set a" and "CHR '':'' \<notin> set b" and "CHR '':'' \<notin> set c"
  shows "parseTimestamp (a @ '':'' @ b @ '':'' @ c) =
           jadd (jadd (jmul (Number a) (Num 3600)) (jmul (Number b) (Num 60))) (Number c)"
proof -
  have "splitOn (CHR '':'') (a @ '':'' @ b @ '':'' @ c) = [a, b, c]"
    using assms by (simp add: splitOn_append splitOn_no_sep)
  then show ?thesis by (simp add: parseTimestamp_def elemAt_def)
qed

lemma hms_decomposition: "(n div 3600) * 3600 + (n mod 3600 div 60) * 60 + n mod 60 = (n::nat)"
proof -
  have "n mod 3600 mod 60 = n mod 60"
    by (simp add: mod_mod_cancel)
  then have "(n mod 3600 div 60) * 60 + n mod 60 = n mod 3600"
    by (metis div_mult_mod_eq)
  then show ?thesis by (metis add.assoc div_mult_mod_eq)
qed

lemma jmul_nat: "a * b \<le> 2 ^ 53 \<Longrightarrow> jmul (Num (real a)) (Num (real b)) = Num (real (a * b))"
  using fl_of_nat[of "a * b"] by simp

lemma jadd_nat: "a + b \<le> 2 ^ 53 \<Longrightarrow> jadd (Num (real a)) (Num (real b)) = Num (real (a + b))"
  using fl_of_nat[of "a + b"] by simp

lemma hms_sum:
  assumes "n < 2 ^ 53"
  shows "jadd (jadd (jmul (Num (real (n div 3600))) (Num (real 3600)))
                    (jmul (Num (real (n mod 3600 div 60))) (Num (real 60))))
              (Num (real (n mod 60)))
         = Num (real n)"
proof -
  let ?H = "n div 3600" and ?M = "n mod 3600 div 60" and ?S = "n mod 60"
  have sum: "?H * 3600 + ?M * 60 + ?S = n" by (rule hms_decomposition)
  then have a: "?H * 3600 \<le> 2 ^ 53" and b: "?M * 60 \<le> 2 ^ 53"
    and c: "?H * 3600 + ?M * 60 \<le> 2 ^ 53" and e: "?H * 3600 + ?M * 60 + ?S \<le> 2 ^ 53"
    using assms by linarith+
  show ?thesis
    unfolding jmul_nat[OF a] jmul_nat[OF b] jadd_nat[OF c] jadd_nat[OF e] sum ..
qed

lemma fl_small: "n < 2 ^ 53 \<Longrightarrow> k \<le> n \<Longrightarrow> fl (real k) = real k"
  by (rule fl_of_nat) simp

lemma roundtrip_hours:
  assumes "n < 2 ^ 53" and "n div 3600 > 0"
  shows "parseTimestamp (formatTimestamp (Num (real n))) = Num (real n)"
proof -
  let ?H = "digitsOf (n div 3600)"
  let ?M = "padStart 2 (CHR ''0'') (digitsOf (n mod 3600 div 60))"
  let ?S = "padStart 2 (CHR ''0'') (digitsOf (n mod 60))"
  have f: "formatTimestamp (Num (real n)) = ?H @ '':'' @ ?M @ '':'' @ ?S"
    using assms(2) by (simp only: formatTimestamp_nat[OF assms(1)] if_True)
  have dh: "CHR '':'' \<notin> set ?H"
    by (rule colon_not_digit, rule digitsOf_digits)
  have dm: "CHR '':'' \<notin> set ?M" and ds: "CHR '':'' \<notin> set ?S"
    by (rule colon_not_digit, rule pad_digits)+
  have e: "fl (real (n div 3600)) = real (n div 3600)"
    "fl (real (n mod 3600 div 60)) = real (n mod 3600 div 60)"
    "fl (real (n mod 60)) = real (n mod 60)"
    by (rule fl_small[OF assms(1)], simp add: div_le_dividend mod_le_divisor le_trans[OF div_le_dividend mod_less_eq_dividend])+
  have "parseTimestamp (formatTimestamp (Num (real n))) =
          jadd (jadd (jmul (Num (real (n div 3600))) (Num 3600))
                     (jmul (Num (real (n mod 3600 div 60))) (Num 60)))
               (Num (real (n mod 60)))"
    by (simp only: f parseTimestamp_three[OF dh dm ds] Number_digitsOf Number_pad_digitsOf e)
  also have "\<dots> = Num (real n)"
    using hms_sum[OF assms(1)] by simp
  finally show ?thesis .
qed

lemma roundtrip_minutes:
  assumes "n < 2 ^ 53" and "\<not> n div 3600 > 0"
  shows "parseTimestamp (formatTimestamp (Num (real n))) = Num (real n)"
proof -
  let ?M = "digitsOf (n mod 3600 div 60)"
  let ?S = "padStart 2 (CHR ''0'') (digitsOf (n mod 60))"
  have f: "formatTimestamp (Num (real n)) = ?M @ '':'' @ ?S"
    using assms(2) by (simp only: formatTimestamp_nat[OF assms(1)] if_False)
  have dm: "CHR '':'' \<notin> set ?M"
    by (rule colon_not_digit, rule digitsOf_digits)
  have ds: "CHR '':'' \<notin> set ?S"
    by (rule colon_not_digit, rule pad_digits)
  have z: "n div 3600 = 0" using assms(2) by simp
  have e: "fl (real (n mod 3600 div 60)) = real (n mod 3600 div 60)"
    "fl (real (n mod 60)) = real (n mod 60)"
    by (rule fl_small[OF assms(1)], simp add: le_trans[OF div_le_dividend mod_less_eq_dividend])+
  have sum: "(n mod 3600 div 60) * 60 + n mod 60 = n"
    using hms_decomposition[of n] by (simp add: z)
  then have b: "(n mod 3600 div 60) * 60 \<le> 2 ^ 53" and c: "(n mod 3600 div 60) * 60 + n mod 60 \<le> 2 ^ 53"
    using assms(1) by linarith+
  have "parseTimestamp (formatTimestamp (Num (real n))) =
          jadd (jmul (Num (real (n mod 3600 div 60))) (Num (real 60))) (Num (real (n mod 60)))"
    by (simp only: f parseTimestamp_two[OF dm ds] Number_digitsOf Number_pad_digitsOf e) simp
  also have "\<dots> = Num (real n)"
    unfolding jmul_nat[OF b] jadd_nat[OF c] sum ..
  finally show ?thesis .
qed

lemma formatTimestamp_examples:
  "formatTimestamp (Num 0) = ''0:00''"
  "formatTimestamp (Num 3661) = ''1:01:01''"
  "formatTimestamp (Num 7325) = ''2:02:05''"
  using formatTimestamp_nat[of 0] formatTimestamp_nat[of 3661] formatTimestamp_nat[of 7325]
  by (simp_all add: padStart_def digitsOf.simps digitChar_def)

lemma fl_at:
  assumes "x \<noteq> 0" and "2 powi e \<le> \<bar>x\<bar>" and "\<bar>x\<bar> < 2 powi (e + 1)"
    and "- 1022 \<le> e" and "e \<le> 1023"
  shows "fl x = 2 powi (e - 52) * of_int (roundHalfEven (x / 2 powi (e - 52)))"
  using assms(1) expo_unique[OF assms(2-5)] by (simp add: fl_def Let_def)

lemma big_format: "formatTimestamp (Num 36028797018964024) = ''10007999171934:27:04''"
proof -
  have e: "(2::real) powi (43 - 52) = 1 / 512" using pow2_neg[of 9] by simp
  have R: "roundHalfEven (36028797018964024 / 3600 / (1 / 512)) = 5124095576030439"
    by (simp add: roundHalfEven_def Let_def)
  have "fl (36028797018964024 / 3600) =
          2 powi (43 - 52) * of_int (roundHalfEven (36028797018964024 / 3600 / 2 powi (43 - 52)))"
    by (rule fl_at) (simp_all add: power_int_def)
  then have q: "fl (36028797018964024 / 3600) = 5124095576030439 / 512"
    unfolding e R by simp
  then have q': "fl (4503599627370503 / 450) = 5124095576030439 / 512" by simp
  have h: "Math_floor (jdiv (Num 36028797018964024) (Num 3600)) = Some 10007999171934"
    by (simp add: q')
  have r1: "jrem (Num 36028797018964024) (Num 3600) = Num 1624"
    by (simp add: trunc_def)
  have m: "Math_floor (jdiv (Num 1624) (Num 60)) = Some 27"
    using floor_fl_60[of 1624] by simp
  have s: "Math_floor (jrem (Num 36028797018964024) (Num 60)) = Some 4"
    by (simp add: trunc_def)
  show ?thesis
    unfolding formatTimestamp_def h r1 m s Let_def
    by (simp add: padStart_def digitsOf.simps digitChar_def)
qed

lemma big_parse: "parseTimestamp ''10007999171934:27:04'' = Num 36028797018964016"
proof -
  have d: "\<forall>c \<in> set ''10007999171934''. isDigit c" "\<forall>c \<in> set ''27''. isDigit c"
    "\<forall>c \<in> set ''04''. isDigit c"
    by (simp_all add: isDigit_def)
  have n: "Number ''10007999171934'' = Num 10007999171934" "Number ''27'' = Num 27"
    "Number ''04'' = Num 4"
    by (simp_all add: Number_digits d natOfDigits_def digitVal_def fl_numeral)
  have c: "CHR '':'' \<notin> set ''10007999171934''" "CHR '':'' \<notin> set ''27''" "CHR '':'' \<notin> set ''04''"
    by simp_all
  have p: "fl 36028797018962400 = 36028797018962400"
    by (subst fl_at[where e = 54]) (simp_all add: power_int_def roundHalfEven_def Let_def)
  have t: "fl 36028797018964020 = 36028797018964016"
    by (subst fl_at[where e = 55]) (simp_all add: power_int_def roundHalfEven_def Let_def)
  have "parseTimestamp (''10007999171934'' @ '':'' @ ''27'' @ '':'' @ ''04'') =
          jadd (jadd (jmul (Num 10007999171934) (Num 3600)) (jmul (Num 27) (Num 60))) (Num 4)"
    unfolding parseTimestamp_three[OF c] n ..
  also have "\<dots> = Num 36028797018964016"
    by (simp add: p t fl_numeral)
  finally show ?thesis by simp
qed

text \<open>
  Claim C3 as stated fails. The double 36028797018964024 is a whole number of seconds;
  \<open>formatTimestamp\<close> renders it as \<open>10007999171934:27:04\<close>, and \<open>parseTimestamp\<close> reads
  that back as 36028797018964016, because the sums above \<open>2^55\<close> are rounded to multiples
  of 8.
\<close>

theorem timestamp_roundtrip_counterexample:
  "formatTimestamp (Num 36028797018964024) = ''10007999171934:27:04''
   \<and> parseTimestamp ''10007999171934:27:04'' = Num 36028797018964016
   \<and> parseTimestamp (formatTimestamp (Num 36028797018964024)) \<noteq> Num 36028797018964024"
  using big_format big_parse by simp

text \<open>
  Claim C3, amended. For every whole number of seconds \<open>n\<close> below \<open>2^53\<close>, where every
  step of the arithmetic is exact, parsing the display string that \<open>formatTimestamp\<close>
  produces gives \<open>n\<close> back; and \<open>formatTimestamp\<close> maps 0, 3661 and 7325 to \<open>0:00\<close>,
  \<open>1:01:01\<close> and \<open>2:02:05\<close>.
\<close>

theorem timestamp_roundtrip_safe:
  "(n < 2 ^ 53 \<longrightarrow> parseTimestamp (formatTimestamp (Num (real n))) = Num (real n))
   \<and> formatTimestamp (Num 0) = ''0:00''
   \<and> formatTimestamp (Num 3661) = ''1:01:01''
   \<and> formatTimestamp (Num 7325) = ''2:02:05''"
  using roundtrip_hours[of n] roundtrip_minutes[of n] formatTimestamp_examples by blast

text \<open>
  The round trip at 7325 seconds.
\<close>

theorem timestamp_roundtrip_safe_witness:
  "(7325::nat) < 2 ^ 53
   \<and> parseTimestamp (formatTimestamp (Num (real (7325::nat)))) = Num (real (7325::nat))"
proof -
  have b: "(7325::nat) < 2 ^ 53" by simp
  with timestamp_roundtrip_safe[of 7325] show ?thesis by blast
qed

text \<open>
  Claim C9. \<open>parseTimestamp\<close> splits on the colon and combines the parts arithmetically,
  with no check of their ranges: two parts \<open>a:b\<close> give \<open>Number a * 60 + Number b\<close>, three parts
  \<open>a:b:c\<close> give \<open>Number a * 3600 + Number b * 60 + Number c\<close>, whatever \<open>a\<close>, \<open>b\<close> and
  \<open>c\<close> are; so \<open>99:99\<close> is read as \<open>99 * 60 + 99 = 6039\<close>.
\<close>

theorem parseTimestamp_arithmetic:
  "(CHR '':'' \<notin> set a \<and> CHR '':'' \<notin> set b \<longrightarrow>
      parseTimestamp (a @ '':'' @ b) = jadd (jmul (Number a) (Num 60)) (Number b))
   \<and> (CHR '':'' \<notin> set a \<and> CHR '':'' \<notin> set b \<and> CHR '':'' \<notin> set c \<longrightarrow>
      parseTimestamp (a @ '':'' @ b @ '':'' @ c) =
        jadd (jadd (jmul (Number a) (Num 3600)) (jmul (Number b) (Num 60))) (Number c))
   \<and> parseTimestamp ''99:99'' = Num (99 * 60 + 99)
   \<and> parseTimestamp ''99:99'' = Num 6039"
proof -
  have d: "\<forall>c \<in> set ''99''. isDigit c" by (simp add: isDigit_def)
  have n: "Number ''99'' = Num 99"
    by (simp add: Number_digits d natOfDigits_def digitVal_def fl_numeral)
  have c: "CHR '':'' \<notin> set ''99''" by simp
  have "parseTimestamp (''99'' @ '':'' @ ''99'') = jadd (jmul (Num 99) (Num 60)) (Num 99)"
    unfolding parseTimestamp_two[OF c c] n ..
  then have "parseTimestamp ''99:99'' = Num 6039"
    by (simp add: fl_numeral)
  then show ?thesis
    using parseTimestamp_two[of a b] parseTimestamp_three[of a b c] by simp
qed

text \<open>
  Out-of-range components: \<open>99:99\<close> and \<open>1:75:80\<close>.
\<close>

theorem parseTimestamp_arithmetic_witness:
  "parseTimestamp (''99'' @ '':'' @ ''99'') = jadd (jmul (Number ''99'') (Num 60)) (Number ''99'')
   \<and> parseTimestamp (''1'' @ '':'' @ ''75'' @ '':'' @ ''80'') =
        jadd (jadd (jmul (Number ''1'') (Num 3600)) (jmul (Number ''75'') (Num 60))) (Number ''80'')"
  using parseTimestamp_arithmetic[of "''99''" "''99''" "''80''"]
    parseTimestamp_arithmetic[of "''1''" "''75''" "''80''"] by simp

text \<open>
  Claim C10. The replacement rules of \<open>decodeHtmlEntities\<close> run one after the other over
  the whole text, the rule for \<open>&amp;\<close> first, so a doubly encoded reference is decoded
  twice: \<open>&amp;lt;\<close> becomes \<open><\<close>, not \<open>&lt;\<close>, and \<open>&amp;amp;\<close> becomes \<open>&amp;\<close>.
\<close>

theorem decodeHtmlEntities_sequential:
  "decodeHtmlEntities ''&amp;lt;'' = ''<''
   \<and> decodeHtmlEntities ''&amp;lt;'' \<noteq> ''&lt;''
   \<and> decodeHtmlEntities ''&amp;amp;'' = ''&amp;''
   \<and> decodeHtmlEntities ''&amp;amp;'' \<noteq> ''&amp;amp;''"
  by (simp add: decodeHtmlEntities_def startsWith_def)

section \<open>Consolidator: the loop and the rule\<close>

lemma joinWith_absorb:
  "joinWith sep ((a @ sep @ b) # rest) = a @ sep @ joinWith sep (b # rest)"
  by (cases rest) simp_all

lemma mergedChunk_absorb:
  "mergedChunk
     (ch\<lparr> seg_text := seg_text ch @ CHR '' '' # seg_text s,
          seg_duration := jsub (jadd (seg_start s) (seg_duration s)) (seg_start ch) \<rparr>) run
   = mergedChunk ch (s # run)"
  unfolding mergedChunk_def
  using joinWith_absorb[of "'' ''" "seg_text ch" "seg_text s" "map seg_text run"]
  by simp

lemma inWindow_absorb:
  "inWindow (ch\<lparr> seg_text := t, seg_duration := d \<rparr>) = inWindow ch"
  by (rule ext) (simp add: inWindow_def)

lemma mergedChunk_Nil: "mergedChunk (ch :: TranscriptSegment) [] = ch"
  by (simp add: mergedChunk_def)

lemma consolidateLoop_chunks:
  "(case consolidateLoop segs acc (Some ch) of
      (done, None) \<Rightarrow> done
    | (done, Some c) \<Rightarrow> done @ [c])
   = acc @ mergedChunk ch (takeWhile (inWindow ch) segs) # chunksBySpec (dropWhile (inWindow ch) segs)"
proof (induction segs arbitrary: acc ch)
  case Nil
  show ?case by (simp add: mergedChunk_Nil)
next
  case (Cons seg segs)
  show ?case
  proof (cases "inWindow ch seg")
    case True
    then have t: "jlt (jsub (seg_start seg) (seg_start ch)) CHUNK_DURATION"
      by (simp add: inWindow_def CHUNK_DURATION_def)
    show ?thesis
      using True t Cons.IH[of acc "ch\<lparr> seg_text := seg_text ch @ '' '' @ seg_text seg,
          seg_duration := jsub (jadd (seg_start seg) (seg_duration seg)) (seg_start ch) \<rparr>"]
      by (simp add: inWindow_absorb mergedChunk_absorb)
  next
    case False
    then have f: "\<not> jlt (jsub (seg_start seg) (seg_start ch)) CHUNK_DURATION"
      by (simp add: inWindow_def CHUNK_DURATION_def)
    show ?thesis
      using False f Cons.IH[of "acc @ [ch]" seg]
      by (simp add: mergedChunk_Nil)
  qed
qed

lemma consolidate_eq_spec: "consolidate segs = chunksBySpec segs"
proof (cases segs)
  case Nil
  then show ?thesis by (simp add: consolidate_def)
next
  case (Cons x xs)
  then show ?thesis
    using consolidateLoop_chunks[of xs "[]" x] by (simp add: consolidate_def)
qed

lemma consolidate_example:
  "consolidate
     [\<lparr> seg_text = t1, seg_start = Num 0, seg_duration = d1 \<rparr>,
      \<lparr> seg_text = t2, seg_start = Num 5, seg_duration = d2 \<rparr>,
      \<lparr> seg_text = t3, seg_start = Num 35, seg_duration = d3 \<rparr>,
      \<lparr> seg_text = t4, seg_start = Num 40, seg_duration = d4 \<rparr>]
   = [\<lparr> seg_text = t1 @ '' '' @ t2, seg_start = Num 0,
        seg_duration = jsub (jadd (Num 5) d2) (Num 0) \<rparr>,
      \<lparr> seg_text = t3 @ '' '' @ t4, seg_start = Num 35,
        seg_duration = jsub (jadd (Num 40) d4) (Num 35) \<rparr>]"
  by (simp add: consolidate_def CHUNK_DURATION_def fl_numeral)

text \<open>
  Claim C2. The loop of the consolidator computes the chunks of the rule: a chunk is opened
  from the first segment; a following segment is merged (its text joined with a space, the
  duration set to \<open>segment.start + segment.duration - chunk.start\<close>) exactly when
  \<open>segment.start - chunk.start < 30\<close>; otherwise the chunk is closed and the segment opens
  the next one; the open chunk is flushed at the end. Segments starting at 0, 5, 35 and 40
  give exactly two chunks, the first of the segments at 0 and 5, the second of those at 35
  and 40.
\<close>

theorem consolidate_rule:
  "consolidate segs = chunksBySpec segs
   \<and> consolidate
       [\<lparr> seg_text = t1, seg_start = Num 0, seg_duration = d1 \<rparr>,
        \<lparr> seg_text = t2, seg_start = Num 5, seg_duration = d2 \<rparr>,
        \<lparr> seg_text = t3, seg_start = Num 35, seg_duration = d3 \<rparr>,
        \<lparr> seg_text = t4, seg_start = Num 40, seg_duration = d4 \<rparr>]
     = [\<lparr> seg_text = t1 @ '' '' @ t2, seg_start = Num 0,
          seg_duration = jsub (jadd (Num 5) d2) (Num 0) \<rparr>,
        \<lparr> seg_text = t3 @ '' '' @ t4, seg_start = Num 35,
          seg_duration = jsub (jadd (Num 40) d4) (Num 35) \<rparr>]"
  using consolidate_eq_spec consolidate_example by blast

text \<open>
  The example with texts and durations filled in.
\<close>

theorem consolidate_rule_witness:
  "consolidate
     [\<lparr> seg_text = ''a'', seg_start = Num 0, seg_duration = Num 2 \<rparr>,
      \<lparr> seg_text = ''b'', seg_start = Num 5, seg_duration = Num 2 \<rparr>,
      \<lparr> seg_text = ''c'', seg_start = Num 35, seg_duration = Num 3 \<rparr>,
      \<lparr> seg_text = ''d'', seg_start = Num 40, seg_duration = Num 4 \<rparr>]
   = [\<lparr> seg_text = ''a b'', seg_start = Num 0, seg_duration = Num 7 \<rparr>,
      \<lparr> seg_text = ''c d'', seg_start = Num 35, seg_duration = Num 9 \<rparr>]"
  using consolidate_rule[of "[]" "''a''" "Num 2" "''b''" "Num 2" "''c''" "Num 3" "''d''" "Num 4"]
  by (simp add: fl_numeral)

section \<open>Consolidator: chunk boundaries\<close>









end
